theory Spec2Isabelle
  imports Main "HOL-Library.Word" "HOL-Library.Multiset"
begin

unbundle bit_operations_syntax

section \<open>Data model\<close>

type_synonym u8 = "8 word"
type_synonym u16 = "16 word"
type_synonym u32 = "32 word"
type_synonym u64 = "64 word"

text \<open>
  Modelled from the spec: \<^verbatim>\<open>struct PacketTrace\<close> is declared in a header that is not
  part of this development; the fields and their widths are those of the data model
  (\<open>timestampNanos: u64\<close>, \<open>lengthBytes: u32\<close>, \<open>interfaceIndex: u32\<close>, \<open>uid\<close>, \<open>tag: u32\<close>,
  \<open>sourcePort\<close>, \<open>destPort: u16\<close> in network byte order, \<open>egress: bool\<close>, \<open>ipProtocol\<close>,
  \<open>tcpFlags: u8\<close>), under the names that \<^verbatim>\<open>NetworkTraceHandler.cpp\<close> reads them by.
  The field \<^verbatim>\<open>length\<close> is called \<open>length_pkt\<close>, since \<open>length\<close> is the length of a list.
\<close>

record PacketTrace =
  timestampNs :: u64
  length_pkt :: u32
  ifindex :: u32
  uid :: u32
  tag :: u32
  sport :: u16
  dport :: u16
  egress :: bool
  ipProto :: u8
  tcpFlags :: u8

text \<open>\<^verbatim>\<open>using BundleKey = PacketTrace;\<close> Keys are packets whose timestamp and length are ignored.\<close>

type_synonym BundleKey = PacketTrace

text \<open>
  \<^verbatim>\<open>struct BundleDetails\<close>: the (timestamp, length) pairs of a bundle in the order of
  \<^verbatim>\<open>emplace_back\<close>, the smallest and largest timestamp, and the 32-bit byte count.
\<close>

record BundleDetails =
  time_and_len :: "(u64 \<times> u32) list"
  minTs :: u64
  maxTs :: u64
  bytes :: u32

text \<open>A default-constructed \<^verbatim>\<open>BundleDetails\<close>, with the member initialisers of the struct.\<close>

definition BundleDetails_init :: BundleDetails where
  "BundleDetails_init =
     \<lparr>time_and_len = [], minTs = 0xFFFFFFFFFFFFFFFF, maxTs = 0, bytes = 0\<rparr>"

subsection \<open>The key: \<^verbatim>\<open>AGG_FIELDS\<close>, \<^verbatim>\<open>BundleEq\<close>, \<^verbatim>\<open>BundleHash\<close>\<close>

text \<open>The macro \<^verbatim>\<open>AGG_FIELDS(x)\<close>: the eight fields, in the macro's order.\<close>

definition AGG_FIELDS :: "PacketTrace \<Rightarrow> u32 \<times> u32 \<times> u32 \<times> u16 \<times> u16 \<times> bool \<times> u8 \<times> u8" where
  "AGG_FIELDS x =
     (ifindex x, uid x, tag x, sport x, dport x, egress x, ipProto x, tcpFlags x)"

text \<open>\<^verbatim>\<open>BundleEq\<close>: \<^verbatim>\<open>std::tie(AGG_FIELDS(a)) == std::tie(AGG_FIELDS(b))\<close>.\<close>

definition BundleEq :: "BundleKey \<Rightarrow> BundleKey \<Rightarrow> bool" where
  "BundleEq a b = (AGG_FIELDS a = AGG_FIELDS b)"

text \<open>
  \<^verbatim>\<open>std::hash<T>\<close> is the standard library's and implementation defined, so the four
  instances that \<^verbatim>\<open>BundleHash\<close> uses are parameters of the model. The type variable
  is the width of \<^verbatim>\<open>std::size_t\<close>.
\<close>

record (overloaded) ('w::len) StdHash =
  hash_u32 :: "u32 \<Rightarrow> 'w word"
  hash_u16 :: "u16 \<Rightarrow> 'w word"
  hash_bool :: "bool \<Rightarrow> 'w word"
  hash_u8 :: "u8 \<Rightarrow> 'w word"

text \<open>
  One step of \<^verbatim>\<open>HashCombine\<close>, on the hash \<open>h\<close> of the value:
  \<^verbatim>\<open>seed ^= h + 0x9e3779b9 + (seed << 6) + (seed >> 2)\<close>, in \<^verbatim>\<open>size_t\<close> arithmetic.
\<close>

definition HashCombine :: "'w::len word \<Rightarrow> 'w word \<Rightarrow> 'w word" where
  "HashCombine seed h = seed XOR (h + 0x9e3779b9 + push_bit 6 seed + drop_bit 2 seed)"

text \<open>
  \<^verbatim>\<open>BundleHash\<close>: the seed starts at 0; the variadic \<^verbatim>\<open>HashCombine\<close> combines its
  first value and then, through the fold over the comma operator, the others from left
  to right.
\<close>

definition BundleHash :: "('w::len) StdHash \<Rightarrow> BundleKey \<Rightarrow> 'w word" where
  "BundleHash H a =
     foldl HashCombine 0
       [hash_u32 H (ifindex a), hash_u32 H (uid a), hash_u32 H (tag a),
        hash_u16 H (sport a), hash_u16 H (dport a), hash_bool H (egress a),
        hash_u8 H (ipProto a), hash_u8 H (tcpFlags a)]"

subsection \<open>Outgoing messages\<close>

text \<open>
  Modelled from the spec: the message types of the trace sink are generated from protobuf
  definitions that is not part of this development. A message is the record of the fields that
  were set on it: a field that no setter wrote is \<open>None\<close> (it is absent from the message),
  a packed field is the list of the values appended to it.
\<close>

datatype TrafficDirection = DIR_UNSPECIFIED | DIR_INGRESS | DIR_EGRESS

record NetworkPacketEvent =
  direction :: "TrafficDirection option"
  interface :: "string option"
  length_ev :: "u32 option"
  uid_ev :: "u32 option"
  tag_ev :: "u32 option"
  ip_proto :: "u32 option"
  tcp_flags :: "u32 option"
  local_port :: "u32 option"
  remote_port :: "u32 option"

definition NetworkPacketEvent_empty :: NetworkPacketEvent where
  "NetworkPacketEvent_empty =
     \<lparr>direction = None, interface = None, length_ev = None, uid_ev = None, tag_ev = None,
      ip_proto = None, tcp_flags = None, local_port = None, remote_port = None\<rparr>"

record NetworkPacketBundle =
  ctx :: "NetworkPacketEvent option"
  packet_timestamps :: "u64 list"
  packet_lengths :: "u32 list"

datatype TracePayload =
  NoPayload
  | network_packet NetworkPacketEvent
  | network_packet_bundle NetworkPacketBundle

record TracePacket =
  timestamp :: "u64 option"
  payload :: TracePayload

text \<open>\<^verbatim>\<open>ctx.NewTracePacket()\<close>: a fresh message with nothing set.\<close>

definition NewTracePacket :: TracePacket where
  "NewTracePacket = \<lparr>timestamp = None, payload = NoPayload\<rparr>"

subsection \<open>Configuration and the handler's members\<close>

text \<open>
  Modelled from the spec: the decoder of the raw configuration and the members of the
  handler are declared that is not part of this development. A field of the configuration that is
  unset is \<open>None\<close>, and the decoder's getter answers the default then: 0 or false.
\<close>

record NetworkPacketTraceConfig =
  poll_ms :: "u32 option"
  intern_limit :: "u32 option"
  aggregation_threshold :: "u32 option"
  drop_local_port :: "bool option"
  drop_remote_port :: "bool option"
  drop_tcp_flags :: "bool option"

definition get_uint32 :: "u32 option \<Rightarrow> u32" where
  "get_uint32 f = (case f of None \<Rightarrow> 0 | Some v \<Rightarrow> v)"

definition get_bool :: "bool option \<Rightarrow> bool" where
  "get_bool f = (case f of None \<Rightarrow> False | Some v \<Rightarrow> v)"

record NetworkTraceHandler =
  mPollMs :: u32
  mInternLimit :: u32
  mAggregationThreshold :: u32
  mDropLocalPort :: bool
  mDropRemotePort :: bool
  mDropTcpFlags :: bool
  mStarted :: bool

section \<open>Operations\<close>

text \<open>\<^verbatim>\<open>NetworkTraceHandler::OnSetup\<close>, on the decoded configuration.\<close>

definition OnSetup :: "NetworkPacketTraceConfig \<Rightarrow> NetworkTraceHandler \<Rightarrow> NetworkTraceHandler" where
  "OnSetup config h =
     (let pollMs = get_uint32 (poll_ms config);
          pollMs = (if pollMs < 100 then 100 else pollMs)
      in h\<lparr>mPollMs := pollMs,
           mInternLimit := get_uint32 (intern_limit config),
           mAggregationThreshold := get_uint32 (aggregation_threshold config),
           mDropLocalPort := get_bool (drop_local_port config),
           mDropRemotePort := get_bool (drop_remote_port config),
           mDropTcpFlags := get_bool (drop_tcp_flags config)\<rparr>)"

text \<open>
  \<^verbatim>\<open>ntohs\<close> on a little-endian host (every target of the platform): the two bytes of
  the 16-bit value change places.
\<close>

definition ntohs :: "u16 \<Rightarrow> u16" where
  "ntohs x = push_bit 8 x OR drop_bit 8 x"

text \<open>
  \<^verbatim>\<open>NetworkTraceHandler::Fill\<close>, a static method: it sees the record and the event, and
  no member of the handler. The resolver stands for \<^verbatim>\<open>if_indextoname\<close>: \<open>Some name\<close>
  when the call returns the buffer, \<open>None\<close> when it returns a null pointer. The setters
  take 32-bit values, so the narrower fields are widened.
\<close>

definition Fill :: "(u32 \<Rightarrow> string option) \<Rightarrow> PacketTrace \<Rightarrow> NetworkPacketEvent \<Rightarrow> NetworkPacketEvent" where
  "Fill if_indextoname src event =
     event\<lparr>direction := Some (if egress src then DIR_EGRESS else DIR_INGRESS),
           uid_ev := Some (uid src),
           tag_ev := Some (tag src),
           local_port := Some (ucast (if egress src then ntohs (sport src) else ntohs (dport src))),
           remote_port := Some (ucast (if egress src then ntohs (dport src) else ntohs (sport src))),
           ip_proto := Some (ucast (ipProto src)),
           tcp_flags := Some (ucast (tcpFlags src)),
           interface := Some (case if_indextoname (ifindex src) of
                                Some ifname \<Rightarrow> ifname
                              | None \<Rightarrow> ''error'')\<rparr>"

text \<open>The body of the first loop of \<^verbatim>\<open>Write\<close>: one message for one packet.\<close>

definition write_packet :: "(u32 \<Rightarrow> string option) \<Rightarrow> PacketTrace \<Rightarrow> TracePacket" where
  "write_packet if_indextoname pkt =
     (let dst = NewTracePacket\<lparr>timestamp := Some (timestampNs pkt)\<rparr>;
          event = NetworkPacketEvent_empty\<lparr>length_ev := Some (length_pkt pkt)\<rparr>
      in dst\<lparr>payload := network_packet (Fill if_indextoname pkt event)\<rparr>)"

text \<open>
  The four statements on \<^verbatim>\<open>bundle\<close> in the second loop: the pair is appended, the
  extrema are updated, and the byte count grows in 32-bit arithmetic.
\<close>

definition add_packet :: "BundleDetails \<Rightarrow> PacketTrace \<Rightarrow> BundleDetails" where
  "add_packet bundle pkt =
     bundle\<lparr>time_and_len := time_and_len bundle @ [(timestampNs pkt, length_pkt pkt)],
            minTs := min (minTs bundle) (timestampNs pkt),
            maxTs := max (maxTs bundle) (timestampNs pkt),
            bytes := bytes bundle + length_pkt pkt\<rparr>"

text \<open>
  The \<^verbatim>\<open>std::unordered_map\<close> is a list of entries whose keys differ under \<^verbatim>\<open>BundleEq\<close>.
  \<^verbatim>\<open>bundles[pkt]\<close> finds the entry whose key equals the packet, or makes one with the
  packet as its key and default details; the body of the loop then updates the details
  of that entry. (Equal keys have equal hashes, so the hash chooses a bucket and never
  changes which entry is found.) The standard leaves the order of iteration open: the
  list keeps the order of first insertion, and the properties below are stated for the
  entries as a set or a multiset.
\<close>

fun bundles_add :: "(BundleKey \<times> BundleDetails) list \<Rightarrow> PacketTrace \<Rightarrow> (BundleKey \<times> BundleDetails) list" where
  "bundles_add [] pkt = [(pkt, add_packet BundleDetails_init pkt)]"
| "bundles_add ((key, details) # rest) pkt =
     (if BundleEq key pkt then (key, add_packet details pkt) # rest
      else (key, details) # bundles_add rest pkt)"

text \<open>The second loop of \<^verbatim>\<open>Write\<close>, over the packets in their order.\<close>

definition accumulate :: "PacketTrace list \<Rightarrow> (BundleKey \<times> BundleDetails) list" where
  "accumulate packets = foldl bundles_add [] packets"

text \<open>The body of the third loop of \<^verbatim>\<open>Write\<close>: one message for one entry of the map.\<close>

definition write_bundle :: "(u32 \<Rightarrow> string option) \<Rightarrow> BundleKey \<times> BundleDetails \<Rightarrow> TracePacket" where
  "write_bundle if_indextoname kv =
     (let key = fst kv; details = snd kv;
          dst = NewTracePacket\<lparr>timestamp := Some (minTs details)\<rparr>;
          offsets = map (\<lambda>tl. fst tl - minTs details) (time_and_len details);
          lengths = map (\<lambda>tl. snd tl) (time_and_len details)
      in dst\<lparr>payload := network_packet_bundle
               \<lparr>ctx = Some (Fill if_indextoname key NetworkPacketEvent_empty),
                packet_timestamps = offsets,
                packet_lengths = lengths\<rparr>\<rparr>)"

text \<open>
  \<^verbatim>\<open>NetworkTraceHandler::Write\<close>: the messages handed to the sink, in the order of
  \<^verbatim>\<open>NewTracePacket\<close>.
\<close>

definition Write :: "NetworkTraceHandler \<Rightarrow> (u32 \<Rightarrow> string option) \<Rightarrow> PacketTrace list \<Rightarrow> TracePacket list" where
  "Write h if_indextoname packets =
     (if mInternLimit h = 0 \<and> mAggregationThreshold h = 0
      then map (write_packet if_indextoname) packets
      else map (write_bundle if_indextoname) (accumulate packets))"

text \<open>
  What a reader of the trace recovers from one message: the (timestamp, length) pair of
  a direct message, or the pairs of a bundle, each offset added to the timestamp of the
  message and paired with the length at the same index.
\<close>

definition recover :: "TracePacket \<Rightarrow> (u64 \<times> u32) list" where
  "recover m =
     (case payload m of
        NoPayload \<Rightarrow> []
      | network_packet event \<Rightarrow>
          (case timestamp m of
             None \<Rightarrow> []
           | Some t \<Rightarrow> (case length_ev event of None \<Rightarrow> [] | Some l \<Rightarrow> [(t, l)]))
      | network_packet_bundle bundle \<Rightarrow>
          (case timestamp m of
             None \<Rightarrow> []
           | Some t \<Rightarrow> zip (map (\<lambda>off. t + off) (packet_timestamps bundle)) (packet_lengths bundle)))"

text \<open>
  The context of a message: the event of a direct message, or the \<^verbatim>\<open>ctx\<close> of a bundle.
\<close>

definition event_of :: "TracePacket \<Rightarrow> NetworkPacketEvent option" where
  "event_of m =
     (case payload m of
        NoPayload \<Rightarrow> None
      | network_packet event \<Rightarrow> Some event
      | network_packet_bundle bundle \<Rightarrow> ctx bundle)"

text \<open>
  The details that the second loop of \<^verbatim>\<open>Write\<close> builds from the packets of one group,
  taken in their order: the name of the state of one entry after those packets.
\<close>

definition details_of :: "PacketTrace list \<Rightarrow> BundleDetails" where
  "details_of ps = foldl add_packet BundleDetails_init ps"

subsection \<open>\<^verbatim>\<open>getSocketCookie\<close>\<close>





section \<open>Example inputs\<close>

text \<open>
  A batch of four packets in two contexts (three packets of one connection, as in the
  comment on bundling at the head of \<^verbatim>\<open>NetworkTraceHandler.cpp\<close>, and one of another),
  a resolver that knows interface 2 only, and a handler with given thresholds.
\<close>

definition ex_pkt :: "u64 \<Rightarrow> u32 \<Rightarrow> PacketTrace" where
  "ex_pkt t l =
     \<lparr>timestampNs = t, length_pkt = l, ifindex = 2, uid = 1000, tag = 123, sport = 0xBB01,
      dport = 0x5000, egress = True, ipProto = 6, tcpFlags = 0x12\<rparr>"

definition ex_other :: PacketTrace where
  "ex_other =
     \<lparr>timestampNs = 3, length_pkt = 40, ifindex = 7, uid = 10123, tag = 0, sport = 0x3500,
      dport = 0xD204, egress = False, ipProto = 17, tcpFlags = 0\<rparr>"

definition ex_batch :: "PacketTrace list" where
  "ex_batch = [ex_pkt 1 72, ex_other, ex_pkt 2 100, ex_pkt 5 456]"

definition ex_resolver :: "u32 \<Rightarrow> string option" where
  "ex_resolver i = (if i = 2 then Some ''wlan0'' else None)"

definition ex_handler :: "u32 \<Rightarrow> u32 \<Rightarrow> NetworkTraceHandler" where
  "ex_handler il at =
     \<lparr>mPollMs = 100, mInternLimit = il, mAggregationThreshold = at, mDropLocalPort = False,
      mDropRemotePort = False, mDropTcpFlags = False, mStarted = False\<rparr>"



text \<open>
  A configuration with the three drop flags set, a batch whose lengths add up beyond
  32 bits, and \<^verbatim>\<open>std::hash\<close> as the identity on integers, with a 64-bit \<^verbatim>\<open>size_t\<close>.
\<close>

definition ex_drop_config :: "u32 \<Rightarrow> NetworkPacketTraceConfig" where
  "ex_drop_config at =
     \<lparr>poll_ms = Some 500, intern_limit = None, aggregation_threshold = Some at,
      drop_local_port = Some True, drop_remote_port = Some True, drop_tcp_flags = Some True\<rparr>"

definition ex_wrap :: "PacketTrace list" where
  "ex_wrap = [ex_pkt 1 0xFFFFFFF0, ex_pkt 2 0x20]"

definition ex_hash :: "64 StdHash" where
  "ex_hash =
     \<lparr>hash_u32 = ucast, hash_u16 = ucast, hash_bool = (\<lambda>b. if b then 1 else 0),
      hash_u8 = ucast\<rparr>"


section \<open>Lemmas on the accumulation loop\<close>

lemma accumulate_snoc: "accumulate (ps @ [p]) = bundles_add (accumulate ps) p"
  by (simp add: accumulate_def)

lemma accumulate_Nil: "accumulate [] = []"
  by (simp add: accumulate_def)

lemma bundles_add_pairs:
  "mset (concat (map (\<lambda>kv. time_and_len (snd kv)) (bundles_add bs p))) =
   mset (concat (map (\<lambda>kv. time_and_len (snd kv)) bs)) + {#(timestampNs p, length_pkt p)#}"
  by (induction bs p rule: bundles_add.induct) (simp_all add: add_packet_def BundleDetails_init_def)

lemma accumulate_pairs:
  "mset (concat (map (\<lambda>kv. time_and_len (snd kv)) (accumulate ps))) =
   mset (map (\<lambda>p. (timestampNs p, length_pkt p)) ps)"
  by (induction ps rule: rev_induct) (simp_all add: accumulate_Nil accumulate_snoc bundles_add_pairs)

lemma bundles_add_keys:
  "map (\<lambda>kv. AGG_FIELDS (fst kv)) (bundles_add bs p) =
   (if AGG_FIELDS p \<in> set (map (\<lambda>kv. AGG_FIELDS (fst kv)) bs)
    then map (\<lambda>kv. AGG_FIELDS (fst kv)) bs
    else map (\<lambda>kv. AGG_FIELDS (fst kv)) bs @ [AGG_FIELDS p])"
  by (induction bs p rule: bundles_add.induct) (auto simp: BundleEq_def)

lemma accumulate_keys_distinct: "distinct (map (\<lambda>kv. AGG_FIELDS (fst kv)) (accumulate ps))"
  by (induction ps rule: rev_induct) (simp_all add: accumulate_Nil accumulate_snoc bundles_add_keys)

lemma accumulate_keys_set:
  "set (map (\<lambda>kv. AGG_FIELDS (fst kv)) (accumulate ps)) = AGG_FIELDS ` set ps"
  by (induction ps rule: rev_induct) (auto simp add: accumulate_Nil accumulate_snoc bundles_add_keys)

lemma length_accumulate: "length (accumulate ps) = card (AGG_FIELDS ` set ps)"
proof -
  have "length (accumulate ps) = length (map (\<lambda>kv. AGG_FIELDS (fst kv)) (accumulate ps))"
    by simp
  also have "\<dots> = card (set (map (\<lambda>kv. AGG_FIELDS (fst kv)) (accumulate ps)))"
    by (rule distinct_card [symmetric]) (rule accumulate_keys_distinct)
  finally show ?thesis by (simp only: accumulate_keys_set)
qed

lemma bundles_add_cases:
  assumes "(k, d) \<in> set (bundles_add bs p)"
    and "distinct (map (\<lambda>kv. AGG_FIELDS (fst kv)) bs)"
  shows "(\<not> BundleEq k p \<and> (k, d) \<in> set bs)
       \<or> (BundleEq k p \<and> (\<exists>d0. (k, d0) \<in> set bs \<and> d = add_packet d0 p))
       \<or> (AGG_FIELDS p \<notin> set (map (\<lambda>kv. AGG_FIELDS (fst kv)) bs) \<and> k = p
            \<and> d = add_packet BundleDetails_init p)"
  using assms
proof (induction bs p rule: bundles_add.induct)
  case (1 pkt)
  then show ?case by simp
next
  case (2 key details rest pkt)
  then show ?case
    by (auto simp: BundleEq_def split: if_splits)
       (metis (no_types, lifting) fst_conv image_eqI)
qed

lemma details_of_snoc: "details_of (ps @ [p]) = add_packet (details_of ps) p"
  by (simp add: details_of_def)

lemma accumulate_details:
  "(k, d) \<in> set (accumulate ps) \<Longrightarrow> d = details_of (filter (BundleEq k) ps) \<and> k \<in> set ps"
proof (induction ps arbitrary: k d rule: rev_induct)
  case Nil
  then show ?case by (simp add: accumulate_Nil)
next
  case (snoc p ps)
  from snoc.prems have "(k, d) \<in> set (bundles_add (accumulate ps) p)"
    by (simp add: accumulate_snoc)
  then consider
      (other) "\<not> BundleEq k p" "(k, d) \<in> set (accumulate ps)"
    | (same) d0 where "BundleEq k p" "(k, d0) \<in> set (accumulate ps)" "d = add_packet d0 p"
    | (new) "AGG_FIELDS p \<notin> AGG_FIELDS ` set ps" "k = p" "d = add_packet BundleDetails_init p"
    using bundles_add_cases [OF _ accumulate_keys_distinct, of k d ps p]
    by (auto simp only: accumulate_keys_set)
  then show ?case
  proof cases
    case other
    with snoc.IH [of k d] show ?thesis by simp
  next
    case same
    with snoc.IH [of k d0] show ?thesis by (simp add: details_of_snoc)
  next
    case new
    from new(1) have "filter (BundleEq p) ps = []"
      by (auto simp: filter_empty_conv BundleEq_def)
    moreover have "BundleEq p p"
      by (simp add: BundleEq_def)
    ultimately have "filter (BundleEq p) (ps @ [p]) = [p]"
      by simp
    with new(2,3) show ?thesis
      by (simp add: details_of_def)
  qed
qed

lemma time_and_len_details_of:
  "time_and_len (details_of ps) = map (\<lambda>p. (timestampNs p, length_pkt p)) ps"
  by (induction ps rule: rev_induct)
     (simp_all add: details_of_snoc add_packet_def, simp add: details_of_def BundleDetails_init_def)

lemma bytes_details_of: "bytes (details_of ps) = sum_list (map length_pkt ps)"
  by (induction ps rule: rev_induct)
     (simp_all add: details_of_snoc add_packet_def, simp add: details_of_def BundleDetails_init_def)

lemma minTs_details_of:
  "ps \<noteq> [] \<Longrightarrow> minTs (details_of ps) = Min (timestampNs ` set ps)"
proof (induction ps rule: rev_induct)
  case Nil
  then show ?case by simp
next
  case (snoc p ps)
  show ?case
  proof (cases "ps = []")
    case True
    have "(0xFFFFFFFFFFFFFFFF :: u64) = - 1"
      by simp
    then have "min (0xFFFFFFFFFFFFFFFF :: u64) (timestampNs p) = timestampNs p"
      by (metis min.absorb2 word_order.extremum)
    with True show ?thesis
      by (simp add: details_of_def add_packet_def BundleDetails_init_def)
  next
    case False
    with snoc.IH have "minTs (details_of ps) = Min (timestampNs ` set ps)" by simp
    with False show ?thesis
      by (simp add: details_of_snoc add_packet_def min.commute)
  qed
qed

lemma unat_sum_list_u32:
  "unat (sum_list (ws :: u32 list)) = sum_list (map unat ws) mod 2 ^ 32"
  by (induction ws) (simp_all add: unat_word_ariths mod_add_right_eq)

lemma accumulate_group:
  assumes "(key, details) \<in> set (accumulate packets)"
  shows "details = details_of (filter (BundleEq key) packets)"
    and "key \<in> set packets"
    and "filter (BundleEq key) packets \<noteq> []"
proof -
  from accumulate_details [OF assms]
  show d: "details = details_of (filter (BundleEq key) packets)" and k: "key \<in> set packets"
    by simp_all
  have "BundleEq key key" by (simp add: BundleEq_def)
  with k show "filter (BundleEq key) packets \<noteq> []"
    by (auto simp: filter_empty_conv)
qed

lemma Min_le_nth:
  fixes samples :: "PacketTrace list"
  assumes "i < length samples"
  shows "Min (timestampNs ` set samples) \<le> timestampNs (samples ! i)"
  using assms by (intro Min_le) auto

lemma unat_offset:
  fixes t m :: u64
  assumes "m \<le> t"
  shows "unat (t - m) + unat m = unat t"
  using assms by (simp add: unat_sub word_le_nat_alt)

lemma group_exists:
  assumes "p \<in> set packets"
  shows "\<exists>kv\<in>set (accumulate packets). BundleEq (fst kv) p"
proof -
  from assms have "AGG_FIELDS p \<in> set (map (\<lambda>kv. AGG_FIELDS (fst kv)) (accumulate packets))"
    by (simp only: accumulate_keys_set) simp
  then obtain kv where "kv \<in> set (accumulate packets)" "AGG_FIELDS (fst kv) = AGG_FIELDS p"
    by auto
  then show ?thesis
    by (auto simp: BundleEq_def)
qed

lemma group_unique:
  assumes "kv \<in> set (accumulate packets)" and "kv' \<in> set (accumulate packets)"
    and "BundleEq (fst kv) p" and "BundleEq (fst kv') p"
  shows "kv = kv'"
proof -
  have "inj_on (\<lambda>kv. AGG_FIELDS (fst kv)) (set (accumulate packets))"
    using accumulate_keys_distinct [of packets] by (simp add: distinct_map)
  moreover from assms(3,4) have "AGG_FIELDS (fst kv) = AGG_FIELDS (fst kv')"
    by (simp add: BundleEq_def)
  ultimately show ?thesis
    using assms(1,2) by (auto dest: inj_onD)
qed

lemma write_direct:
  "mInternLimit h = 0 \<and> mAggregationThreshold h = 0 \<Longrightarrow>
   Write h r packets = map (write_packet r) packets"
  by (simp add: Write_def)

lemma write_bundled:
  "mInternLimit h \<noteq> 0 \<or> mAggregationThreshold h \<noteq> 0 \<Longrightarrow>
   Write h r packets = map (write_bundle r) (accumulate packets)"
  by (auto simp: Write_def)

lemma BundleEq_fields:
  "BundleEq a b \<longleftrightarrow>
     ifindex a = ifindex b \<and> uid a = uid b \<and> tag a = tag b \<and> sport a = sport b \<and>
     dport a = dport b \<and> egress a = egress b \<and> ipProto a = ipProto b \<and>
     tcpFlags a = tcpFlags b"
  by (simp add: BundleEq_def AGG_FIELDS_def)

lemma BundleHash_cong: "BundleEq a b \<Longrightarrow> BundleHash H a = BundleHash H b"
  by (simp add: BundleEq_fields BundleHash_def)

section \<open>Lemmas on the messages\<close>

lemma recover_write_packet:
  "recover (write_packet r p) = [(timestampNs p, length_pkt p)]"
  by (simp add: recover_def write_packet_def NewTracePacket_def Fill_def
      NetworkPacketEvent_empty_def)

lemma recover_write_bundle: "recover (write_bundle r kv) = time_and_len (snd kv)"
proof -
  have "zip (map (\<lambda>off. t + off) (map (\<lambda>tl. fst tl - t) xs)) (map (\<lambda>tl. snd tl) xs) = xs"
    for t :: u64 and xs :: "(u64 \<times> u32) list"
    by (induction xs) simp_all
  then show ?thesis
    by (simp add: recover_def write_bundle_def NewTracePacket_def Let_def)
qed

lemma event_of_write_packet:
  "event_of (write_packet r p) =
     Some (Fill r p (NetworkPacketEvent_empty\<lparr>length_ev := Some (length_pkt p)\<rparr>))"
  by (simp add: event_of_def write_packet_def NewTracePacket_def Let_def)

lemma event_of_write_bundle:
  "event_of (write_bundle r kv) = Some (Fill r (fst kv) NetworkPacketEvent_empty)"
  by (simp add: event_of_def write_bundle_def NewTracePacket_def Let_def)

lemma interface_Fill:
  "interface (Fill r src event) =
     Some (case r (ifindex src) of Some ifname \<Rightarrow> ifname | None \<Rightarrow> ''error'')"
  by (simp add: Fill_def)

lemma Fill_ports_flags:
  "local_port (Fill r src event) =
     Some (ucast (ntohs (if egress src then sport src else dport src))) \<and>
   remote_port (Fill r src event) =
     Some (ucast (ntohs (if egress src then dport src else sport src))) \<and>
   tcp_flags (Fill r src event) = Some (ucast (tcpFlags src))"
  by (simp add: Fill_def)

lemma Fill_ports_flags_cong:
  assumes "BundleEq key p"
  shows "local_port (Fill r key event) =
           Some (ucast (ntohs (if egress p then sport p else dport p))) \<and>
         remote_port (Fill r key event) =
           Some (ucast (ntohs (if egress p then dport p else sport p))) \<and>
         tcp_flags (Fill r key event) = Some (ucast (tcpFlags p))"
  using assms by (simp add: Fill_def BundleEq_fields)

lemma ex_batch_keys: "card (AGG_FIELDS ` set ex_batch) = 2"
proof -
  have k1: "AGG_FIELDS (ex_pkt t l) = (2, 1000, 123, 0xBB01, 0x5000, True, 6, 0x12)" for t l
    by (simp add: AGG_FIELDS_def ex_pkt_def)
  have k2: "AGG_FIELDS ex_other = (7, 10123, 0, 0x3500, 0xD204, False, 17, 0)"
    by (simp add: AGG_FIELDS_def ex_other_def)
  show ?thesis
    by (simp add: ex_batch_def k1 k2 card_insert_if)
qed

section \<open>The properties\<close>

text \<open>
  C1 (lossless coverage). For every handler configuration, so in both emission modes,
  and every batch, the multiset of (timestamp, length) pairs recovered from the messages
  that \<^verbatim>\<open>Write\<close> emits is the multiset of the (timestampNs, length) pairs of the batch:
  no record is dropped, and each is in the data of exactly one message.
\<close>

theorem lossless_coverage:
  "mset (concat (map recover (Write h r packets))) =
   mset (map (\<lambda>p. (timestampNs p, length_pkt p)) packets)"
proof (cases "mInternLimit h = 0 \<and> mAggregationThreshold h = 0")
  case True
  have "concat (map recover (map (write_packet r) packets)) =
        map (\<lambda>p. (timestampNs p, length_pkt p)) packets"
    by (induction packets) (simp_all add: recover_write_packet)
  with True show ?thesis by (simp add: Write_def)
next
  case False
  have "map recover (map (write_bundle r) (accumulate packets)) =
        map (\<lambda>kv. time_and_len (snd kv)) (accumulate packets)"
    by (simp add: recover_write_bundle)
  with False show ?thesis
    by (simp only: Write_def accumulate_pairs if_False)
qed

theorem lossless_coverage_witness:
  "mset (concat (map recover (Write (ex_handler 0 10) ex_resolver ex_batch))) =
   {#(1, 72), (3, 40), (2, 100), (5, 456)#}"
  using lossless_coverage [of "ex_handler 0 10" ex_resolver ex_batch]
  by (simp add: ex_batch_def ex_pkt_def ex_other_def)

text \<open>
  C2 (delta correctness). With bundling enabled, every group that the accumulation
  produces gives one message of \<^verbatim>\<open>Write\<close>. The samples of the group are the records of the
  batch whose key equals the group's, in arrival order; there is at least one. The
  timestamp of the message is the least timestampNs of the samples; the lengths are the
  lengths of the samples, index by index; and each offset plus the timestamp of the
  message is the timestampNs of the sample at that index, as numbers, without wrap-around.
\<close>

theorem delta_correctness:
  fixes r :: "u32 \<Rightarrow> string option"
  assumes enabled: "mInternLimit h \<noteq> 0 \<or> mAggregationThreshold h \<noteq> 0"
    and group: "(key, details) \<in> set (accumulate packets)"
  defines "samples \<equiv> filter (BundleEq key) packets"
  defines "m \<equiv> write_bundle r (key, details)"
  shows "m \<in> set (Write h r packets) \<and>
         samples \<noteq> [] \<and>
         time_and_len details = map (\<lambda>p. (timestampNs p, length_pkt p)) samples \<and>
         timestamp m = Some (Min (timestampNs ` set samples)) \<and>
         (\<exists>b. payload m = network_packet_bundle b \<and>
              ctx b = Some (Fill r key NetworkPacketEvent_empty) \<and>
              length (packet_timestamps b) = length samples \<and>
              packet_lengths b = map length_pkt samples \<and>
              (\<forall>i<length samples.
                 unat (packet_timestamps b ! i) + unat (Min (timestampNs ` set samples)) =
                 unat (timestampNs (samples ! i))))"
proof -
  from accumulate_group [OF group]
  have d: "details = details_of samples" and ne: "samples \<noteq> []"
    by (simp_all add: samples_def)
  have tl: "time_and_len details = map (\<lambda>p. (timestampNs p, length_pkt p)) samples"
    by (simp add: d time_and_len_details_of)
  have mn: "minTs details = Min (timestampNs ` set samples)"
    by (simp add: d minTs_details_of [OF ne])
  have "m \<in> set (Write h r packets)"
    using enabled group by (auto simp: Write_def m_def)
  moreover have "timestamp m = Some (Min (timestampNs ` set samples))"
    by (simp add: m_def write_bundle_def NewTracePacket_def Let_def mn)
  moreover have "\<exists>b. payload m = network_packet_bundle b \<and>
              ctx b = Some (Fill r key NetworkPacketEvent_empty) \<and>
              length (packet_timestamps b) = length samples \<and>
              packet_lengths b = map length_pkt samples \<and>
              (\<forall>i<length samples.
                 unat (packet_timestamps b ! i) + unat (Min (timestampNs ` set samples)) =
                 unat (timestampNs (samples ! i)))"
    by (simp add: m_def write_bundle_def NewTracePacket_def Let_def mn tl o_def
        unat_offset [OF Min_le_nth])
  ultimately show ?thesis
    using ne tl by simp
qed

theorem delta_correctness_witness:
  "write_bundle ex_resolver (ex_pkt 1 72, details_of [ex_pkt 1 72, ex_pkt 2 100, ex_pkt 5 456])
     \<in> set (Write (ex_handler 0 10) ex_resolver ex_batch) \<and>
   timestamp (write_bundle ex_resolver
     (ex_pkt 1 72, details_of [ex_pkt 1 72, ex_pkt 2 100, ex_pkt 5 456])) = Some 1 \<and>
   (\<exists>b. payload (write_bundle ex_resolver
            (ex_pkt 1 72, details_of [ex_pkt 1 72, ex_pkt 2 100, ex_pkt 5 456])) =
          network_packet_bundle b \<and>
        packet_timestamps b = [0, 1, 4] \<and> packet_lengths b = [72, 100, 456])"
proof -
  have en: "mInternLimit (ex_handler 0 10) \<noteq> 0 \<or> mAggregationThreshold (ex_handler 0 10) \<noteq> 0"
    by (simp add: ex_handler_def)
  have acc: "accumulate ex_batch =
    [(ex_pkt 1 72, details_of [ex_pkt 1 72, ex_pkt 2 100, ex_pkt 5 456]),
     (ex_other, details_of [ex_other])]"
    by (simp add: accumulate_def ex_batch_def ex_pkt_def ex_other_def BundleEq_def
        AGG_FIELDS_def details_of_def)
  then have gr: "(ex_pkt 1 72, details_of [ex_pkt 1 72, ex_pkt 2 100, ex_pkt 5 456])
      \<in> set (accumulate ex_batch)"
    by simp
  from delta_correctness [OF en gr, where r = ex_resolver]
  have "write_bundle ex_resolver
      (ex_pkt 1 72, details_of [ex_pkt 1 72, ex_pkt 2 100, ex_pkt 5 456])
     \<in> set (Write (ex_handler 0 10) ex_resolver ex_batch)"
    by simp
  then show ?thesis
    by (simp add: write_bundle_def NewTracePacket_def Let_def details_of_def add_packet_def
        BundleDetails_init_def ex_pkt_def)
qed

text \<open>
  C3 (threshold gating). When \<^verbatim>\<open>mInternLimit\<close> and \<^verbatim>\<open>mAggregationThreshold\<close> are both zero,
  \<^verbatim>\<open>Write\<close> emits one direct message for each record, in arrival order, with the record's
  own timestamp and length. When one of them is not zero, bundling is on: every message
  is a bundle, and there is exactly one for each distinct context key of the batch (the
  keys of the groups are pairwise different and are the keys seen in the batch).
\<close>

theorem threshold_gating:
  "(mInternLimit h = 0 \<and> mAggregationThreshold h = 0 \<longrightarrow>
      Write h r packets = map (write_packet r) packets \<and>
      length (Write h r packets) = length packets \<and>
      (\<forall>i<length packets.
         timestamp (Write h r packets ! i) = Some (timestampNs (packets ! i)) \<and>
         (\<exists>event. payload (Write h r packets ! i) = network_packet event \<and>
            length_ev event = Some (length_pkt (packets ! i))))) \<and>
   (mInternLimit h \<noteq> 0 \<or> mAggregationThreshold h \<noteq> 0 \<longrightarrow>
      Write h r packets = map (write_bundle r) (accumulate packets) \<and>
      length (Write h r packets) = card (AGG_FIELDS ` set packets) \<and>
      distinct (map (\<lambda>kv. AGG_FIELDS (fst kv)) (accumulate packets)) \<and>
      set (map (\<lambda>kv. AGG_FIELDS (fst kv)) (accumulate packets)) = AGG_FIELDS ` set packets \<and>
      (\<forall>m\<in>set (Write h r packets). \<exists>bundle. payload m = network_packet_bundle bundle))"
proof (intro conjI impI)
  assume off: "mInternLimit h = 0 \<and> mAggregationThreshold h = 0"
  show w: "Write h r packets = map (write_packet r) packets"
    by (rule write_direct [OF off])
  show "length (Write h r packets) = length packets"
    by (simp add: w)
  show "\<forall>i<length packets.
         timestamp (Write h r packets ! i) = Some (timestampNs (packets ! i)) \<and>
         (\<exists>event. payload (Write h r packets ! i) = network_packet event \<and>
            length_ev event = Some (length_pkt (packets ! i)))"
    by (simp add: w write_packet_def NewTracePacket_def Fill_def NetworkPacketEvent_empty_def)
next
  assume on: "mInternLimit h \<noteq> 0 \<or> mAggregationThreshold h \<noteq> 0"
  show w: "Write h r packets = map (write_bundle r) (accumulate packets)"
    by (rule write_bundled [OF on])
  show "length (Write h r packets) = card (AGG_FIELDS ` set packets)"
    by (simp add: w length_accumulate)
  show "distinct (map (\<lambda>kv. AGG_FIELDS (fst kv)) (accumulate packets))"
    by (rule accumulate_keys_distinct)
  show "set (map (\<lambda>kv. AGG_FIELDS (fst kv)) (accumulate packets)) = AGG_FIELDS ` set packets"
    by (rule accumulate_keys_set)
  show "\<forall>m\<in>set (Write h r packets). \<exists>bundle. payload m = network_packet_bundle bundle"
    by (auto simp: w write_bundle_def NewTracePacket_def Let_def)
qed

theorem threshold_gating_witness:
  "length (Write (ex_handler 0 0) ex_resolver ex_batch) = 4 \<and>
   length (Write (ex_handler 0 10) ex_resolver ex_batch) = 2 \<and>
   length (Write (ex_handler 3 0) ex_resolver ex_batch) = 2"
proof -
  have l: "length ex_batch = 4"
    by (simp add: ex_batch_def)
  have off: "mInternLimit (ex_handler 0 0) = 0 \<and> mAggregationThreshold (ex_handler 0 0) = 0"
    by (simp add: ex_handler_def)
  have on1: "mInternLimit (ex_handler 0 10) \<noteq> 0 \<or> mAggregationThreshold (ex_handler 0 10) \<noteq> 0"
    by (simp add: ex_handler_def)
  have on2: "mInternLimit (ex_handler 3 0) \<noteq> 0 \<or> mAggregationThreshold (ex_handler 3 0) \<noteq> 0"
    by (simp add: ex_handler_def)
  from threshold_gating [of "ex_handler 0 0" ex_resolver ex_batch] off
  have "length (Write (ex_handler 0 0) ex_resolver ex_batch) = length ex_batch"
    by blast
  moreover from threshold_gating [of "ex_handler 0 10" ex_resolver ex_batch] on1
  have "length (Write (ex_handler 0 10) ex_resolver ex_batch) = card (AGG_FIELDS ` set ex_batch)"
    by blast
  moreover from threshold_gating [of "ex_handler 3 0" ex_resolver ex_batch] on2
  have "length (Write (ex_handler 3 0) ex_resolver ex_batch) = card (AGG_FIELDS ` set ex_batch)"
    by blast
  ultimately show ?thesis
    by (simp only: l ex_batch_keys)
qed

text \<open>
  C4, as stated, fails: with the three drop flags set in the configuration and stored by
  \<^verbatim>\<open>OnSetup\<close>, the message for a packet still carries the local port 443, the remote port
  80 and the tcp flags 18, in direct mode and in bundled mode.
\<close>

theorem drop_flags_counterexample:
  "mDropLocalPort (OnSetup (ex_drop_config 0) (ex_handler 0 0)) \<and>
   mDropRemotePort (OnSetup (ex_drop_config 0) (ex_handler 0 0)) \<and>
   mDropTcpFlags (OnSetup (ex_drop_config 0) (ex_handler 0 0)) \<and>
   map event_of (Write (OnSetup (ex_drop_config 0) (ex_handler 0 0)) ex_resolver [ex_pkt 1 72]) =
     [Some \<lparr>direction = Some DIR_EGRESS, interface = Some ''wlan0'', length_ev = Some 72,
        uid_ev = Some 1000, tag_ev = Some 123, ip_proto = Some 6, tcp_flags = Some 18,
        local_port = Some 443, remote_port = Some 80\<rparr>] \<and>
   map event_of (Write (OnSetup (ex_drop_config 10) (ex_handler 0 0)) ex_resolver [ex_pkt 1 72]) =
     [Some \<lparr>direction = Some DIR_EGRESS, interface = Some ''wlan0'', length_ev = None,
        uid_ev = Some 1000, tag_ev = Some 123, ip_proto = Some 6, tcp_flags = Some 18,
        local_port = Some 443, remote_port = Some 80\<rparr>]"
  by (simp add: OnSetup_def ex_drop_config_def ex_handler_def get_bool_def get_uint32_def
      Write_def accumulate_def event_of_write_packet event_of_write_bundle Fill_def
      NetworkPacketEvent_empty_def ex_pkt_def ex_resolver_def ntohs_def)

text \<open>
  C4, amended. \<^verbatim>\<open>OnSetup\<close> stores the three drop flags, and the encoding does not read
  them: \<^verbatim>\<open>Write\<close> emits the same messages whatever the flags are. In direct mode the
  message at each index holds the timestamp and length of the record at that index and
  carries that record's local port, remote port and tcp flags. In bundled mode the
  message of each group holds the samples of the group and carries the local port, remote
  port and tcp flags of every record of the group. So in both modes every record of the
  batch has a message that holds its timestamp and length and carries its own local
  port, remote port and tcp flags.
\<close>

theorem drop_flags_not_applied:
  "mDropLocalPort (OnSetup config h) = get_bool (drop_local_port config) \<and>
   mDropRemotePort (OnSetup config h) = get_bool (drop_remote_port config) \<and>
   mDropTcpFlags (OnSetup config h) = get_bool (drop_tcp_flags config) \<and>
   Write (h\<lparr>mDropLocalPort := dl, mDropRemotePort := dr, mDropTcpFlags := dt\<rparr>) r packets =
     Write h r packets \<and>
   (mInternLimit h = 0 \<and> mAggregationThreshold h = 0 \<longrightarrow>
      length (Write h r packets) = length packets \<and>
      (\<forall>i<length packets. \<exists>event.
         event_of (Write h r packets ! i) = Some event \<and>
         recover (Write h r packets ! i) =
           [(timestampNs (packets ! i), length_pkt (packets ! i))] \<and>
         local_port event =
           Some (ucast (ntohs (if egress (packets ! i) then sport (packets ! i)
                               else dport (packets ! i)))) \<and>
         remote_port event =
           Some (ucast (ntohs (if egress (packets ! i) then dport (packets ! i)
                               else sport (packets ! i)))) \<and>
         tcp_flags event = Some (ucast (tcpFlags (packets ! i))))) \<and>
   (mInternLimit h \<noteq> 0 \<or> mAggregationThreshold h \<noteq> 0 \<longrightarrow>
      (\<forall>kv\<in>set (accumulate packets).
         write_bundle r kv \<in> set (Write h r packets) \<and>
         (\<exists>event.
            event_of (write_bundle r kv) = Some event \<and>
            recover (write_bundle r kv) =
              map (\<lambda>p. (timestampNs p, length_pkt p)) (filter (BundleEq (fst kv)) packets) \<and>
            (\<forall>p\<in>set (filter (BundleEq (fst kv)) packets).
               local_port event =
                 Some (ucast (ntohs (if egress p then sport p else dport p))) \<and>
               remote_port event =
                 Some (ucast (ntohs (if egress p then dport p else sport p))) \<and>
               tcp_flags event = Some (ucast (tcpFlags p)))))) \<and>
   (\<forall>p\<in>set packets. \<exists>m\<in>set (Write h r packets). \<exists>event.
      event_of m = Some event \<and>
      (timestampNs p, length_pkt p) \<in> set (recover m) \<and>
      local_port event = Some (ucast (ntohs (if egress p then sport p else dport p))) \<and>
      remote_port event = Some (ucast (ntohs (if egress p then dport p else sport p))) \<and>
      tcp_flags event = Some (ucast (tcpFlags p)))"
proof (intro conjI impI)
  show "mDropLocalPort (OnSetup config h) = get_bool (drop_local_port config)"
    and "mDropRemotePort (OnSetup config h) = get_bool (drop_remote_port config)"
    and "mDropTcpFlags (OnSetup config h) = get_bool (drop_tcp_flags config)"
    by (simp_all add: OnSetup_def Let_def)
  show "Write (h\<lparr>mDropLocalPort := dl, mDropRemotePort := dr, mDropTcpFlags := dt\<rparr>) r packets =
     Write h r packets"
    by (simp add: Write_def)
next
  assume off: "mInternLimit h = 0 \<and> mAggregationThreshold h = 0"
  show "length (Write h r packets) = length packets"
    by (simp add: write_direct [OF off])
  show "\<forall>i<length packets. \<exists>event.
         event_of (Write h r packets ! i) = Some event \<and>
         recover (Write h r packets ! i) =
           [(timestampNs (packets ! i), length_pkt (packets ! i))] \<and>
         local_port event =
           Some (ucast (ntohs (if egress (packets ! i) then sport (packets ! i)
                               else dport (packets ! i)))) \<and>
         remote_port event =
           Some (ucast (ntohs (if egress (packets ! i) then dport (packets ! i)
                               else sport (packets ! i)))) \<and>
         tcp_flags event = Some (ucast (tcpFlags (packets ! i)))"
    by (simp add: write_direct [OF off] event_of_write_packet recover_write_packet
        Fill_ports_flags)
next
  assume on: "mInternLimit h \<noteq> 0 \<or> mAggregationThreshold h \<noteq> 0"
  show "\<forall>kv\<in>set (accumulate packets).
         write_bundle r kv \<in> set (Write h r packets) \<and>
         (\<exists>event.
            event_of (write_bundle r kv) = Some event \<and>
            recover (write_bundle r kv) =
              map (\<lambda>p. (timestampNs p, length_pkt p)) (filter (BundleEq (fst kv)) packets) \<and>
            (\<forall>p\<in>set (filter (BundleEq (fst kv)) packets).
               local_port event =
                 Some (ucast (ntohs (if egress p then sport p else dport p))) \<and>
               remote_port event =
                 Some (ucast (ntohs (if egress p then dport p else sport p))) \<and>
               tcp_flags event = Some (ucast (tcpFlags p))))"
  proof
    fix kv assume kv: "kv \<in> set (accumulate packets)"
    then have "(fst kv, snd kv) \<in> set (accumulate packets)"
      by simp
    from accumulate_group(1) [OF this]
    have tl: "time_and_len (snd kv) =
        map (\<lambda>p. (timestampNs p, length_pkt p)) (filter (BundleEq (fst kv)) packets)"
      by (simp add: time_and_len_details_of)
    from kv have "write_bundle r kv \<in> set (Write h r packets)"
      by (simp add: write_bundled [OF on])
    moreover have "\<forall>p\<in>set (filter (BundleEq (fst kv)) packets).
        local_port (Fill r (fst kv) NetworkPacketEvent_empty) =
          Some (ucast (ntohs (if egress p then sport p else dport p))) \<and>
        remote_port (Fill r (fst kv) NetworkPacketEvent_empty) =
          Some (ucast (ntohs (if egress p then dport p else sport p))) \<and>
        tcp_flags (Fill r (fst kv) NetworkPacketEvent_empty) = Some (ucast (tcpFlags p))"
      using Fill_ports_flags_cong by simp
    ultimately show "write_bundle r kv \<in> set (Write h r packets) \<and>
         (\<exists>event.
            event_of (write_bundle r kv) = Some event \<and>
            recover (write_bundle r kv) =
              map (\<lambda>p. (timestampNs p, length_pkt p)) (filter (BundleEq (fst kv)) packets) \<and>
            (\<forall>p\<in>set (filter (BundleEq (fst kv)) packets).
               local_port event =
                 Some (ucast (ntohs (if egress p then sport p else dport p))) \<and>
               remote_port event =
                 Some (ucast (ntohs (if egress p then dport p else sport p))) \<and>
               tcp_flags event = Some (ucast (tcpFlags p))))"
      by (simp only: event_of_write_bundle recover_write_bundle tl) blast
  qed
next
  show "\<forall>p\<in>set packets. \<exists>m\<in>set (Write h r packets). \<exists>event.
      event_of m = Some event \<and>
      (timestampNs p, length_pkt p) \<in> set (recover m) \<and>
      local_port event = Some (ucast (ntohs (if egress p then sport p else dport p))) \<and>
      remote_port event = Some (ucast (ntohs (if egress p then dport p else sport p))) \<and>
      tcp_flags event = Some (ucast (tcpFlags p))"
  proof
    fix p assume p: "p \<in> set packets"
    show "\<exists>m\<in>set (Write h r packets). \<exists>event.
      event_of m = Some event \<and>
      (timestampNs p, length_pkt p) \<in> set (recover m) \<and>
      local_port event = Some (ucast (ntohs (if egress p then sport p else dport p))) \<and>
      remote_port event = Some (ucast (ntohs (if egress p then dport p else sport p))) \<and>
      tcp_flags event = Some (ucast (tcpFlags p))"
    proof (cases "mInternLimit h = 0 \<and> mAggregationThreshold h = 0")
      case True
      from p have "write_packet r p \<in> set (Write h r packets)"
        by (simp add: write_direct [OF True])
      moreover have "(timestampNs p, length_pkt p) \<in> set (recover (write_packet r p))"
        by (simp add: recover_write_packet)
      ultimately show ?thesis
        using event_of_write_packet Fill_ports_flags by blast
    next
      case False
      then have on: "mInternLimit h \<noteq> 0 \<or> mAggregationThreshold h \<noteq> 0"
        by simp
      from group_exists [OF p]
      obtain kv where kv: "kv \<in> set (accumulate packets)" and eq: "BundleEq (fst kv) p"
        by blast
      from kv have "(fst kv, snd kv) \<in> set (accumulate packets)"
        by simp
      from accumulate_group(1) [OF this]
      have "time_and_len (snd kv) =
          map (\<lambda>p. (timestampNs p, length_pkt p)) (filter (BundleEq (fst kv)) packets)"
        by (simp add: time_and_len_details_of)
      with p eq have "(timestampNs p, length_pkt p) \<in> set (recover (write_bundle r kv))"
        by (auto simp: recover_write_bundle)
      moreover from kv have "write_bundle r kv \<in> set (Write h r packets)"
        by (simp add: write_bundled [OF on])
      ultimately show ?thesis
        using event_of_write_bundle Fill_ports_flags_cong [OF eq] by blast
    qed
  qed
qed

theorem drop_flags_not_applied_witness:
  "Write (ex_handler 0 0\<lparr>mDropLocalPort := True, mDropRemotePort := True, mDropTcpFlags := True\<rparr>)
     ex_resolver ex_batch = Write (ex_handler 0 0) ex_resolver ex_batch \<and>
   (\<exists>event. event_of (Write (ex_handler 0 0) ex_resolver ex_batch ! 1) = Some event \<and>
      recover (Write (ex_handler 0 0) ex_resolver ex_batch ! 1) = [(3, 40)] \<and>
      local_port event = Some 1234 \<and> remote_port event = Some 53 \<and>
      tcp_flags event = Some 0) \<and>
   write_bundle ex_resolver (ex_other, details_of [ex_other])
     \<in> set (Write (ex_handler 0 10) ex_resolver ex_batch) \<and>
   (\<exists>m\<in>set (Write (ex_handler 0 10) ex_resolver ex_batch). \<exists>event.
      event_of m = Some event \<and> (3, 40) \<in> set (recover m) \<and>
      local_port event = Some 1234 \<and> remote_port event = Some 53 \<and>
      tcp_flags event = Some 0)"
proof -
  note dn = drop_flags_not_applied [where dl = True and dr = True
      and dt = True and r = ex_resolver and packets = ex_batch]
  have off: "mInternLimit (ex_handler 0 0) = 0 \<and> mAggregationThreshold (ex_handler 0 0) = 0"
    by (simp add: ex_handler_def)
  have on: "mInternLimit (ex_handler 0 10) \<noteq> 0 \<or> mAggregationThreshold (ex_handler 0 10) \<noteq> 0"
    by (simp add: ex_handler_def)
  have i: "1 < length ex_batch" and nth: "ex_batch ! 1 = ex_other"
    and mem: "ex_other \<in> set ex_batch"
    by (simp_all add: ex_batch_def)
  have "accumulate ex_batch =
    [(ex_pkt 1 72, details_of [ex_pkt 1 72, ex_pkt 2 100, ex_pkt 5 456]),
     (ex_other, details_of [ex_other])]"
    by (simp add: accumulate_def ex_batch_def ex_pkt_def ex_other_def BundleEq_def
        AGG_FIELDS_def details_of_def)
  then have gr: "(ex_other, details_of [ex_other]) \<in> set (accumulate ex_batch)"
    by simp
  have vals: "timestampNs ex_other = 3" "length_pkt ex_other = 40"
      "ucast (ntohs (if egress ex_other then sport ex_other else dport ex_other)) = (1234 :: u32)"
      "ucast (ntohs (if egress ex_other then dport ex_other else sport ex_other)) = (53 :: u32)"
      "ucast (tcpFlags ex_other) = (0 :: u32)"
    by (simp_all add: ex_other_def ntohs_def)
  from dn [where h = "ex_handler 0 0"]
  have "Write (ex_handler 0 0\<lparr>mDropLocalPort := True, mDropRemotePort := True,
      mDropTcpFlags := True\<rparr>) ex_resolver ex_batch = Write (ex_handler 0 0) ex_resolver ex_batch"
    by blast
  moreover from dn [where h = "ex_handler 0 0"] off i
  have "\<exists>event. event_of (Write (ex_handler 0 0) ex_resolver ex_batch ! 1) = Some event \<and>
      recover (Write (ex_handler 0 0) ex_resolver ex_batch ! 1) =
        [(timestampNs (ex_batch ! 1), length_pkt (ex_batch ! 1))] \<and>
      local_port event =
        Some (ucast (ntohs (if egress (ex_batch ! 1) then sport (ex_batch ! 1)
                            else dport (ex_batch ! 1)))) \<and>
      remote_port event =
        Some (ucast (ntohs (if egress (ex_batch ! 1) then dport (ex_batch ! 1)
                            else sport (ex_batch ! 1)))) \<and>
      tcp_flags event = Some (ucast (tcpFlags (ex_batch ! 1)))"
    by blast
  moreover from dn [where h = "ex_handler 0 10"] on gr
  have "write_bundle ex_resolver (ex_other, details_of [ex_other])
     \<in> set (Write (ex_handler 0 10) ex_resolver ex_batch)"
    by blast
  moreover from dn [where h = "ex_handler 0 10"] mem
  have "\<exists>m\<in>set (Write (ex_handler 0 10) ex_resolver ex_batch). \<exists>event.
      event_of m = Some event \<and>
      (timestampNs ex_other, length_pkt ex_other) \<in> set (recover m) \<and>
      local_port event =
        Some (ucast (ntohs (if egress ex_other then sport ex_other else dport ex_other))) \<and>
      remote_port event =
        Some (ucast (ntohs (if egress ex_other then dport ex_other else sport ex_other))) \<and>
      tcp_flags event = Some (ucast (tcpFlags ex_other))"
    by blast
  ultimately show ?thesis
    by (simp only: nth vals)
qed

text \<open>
  C5 (partition correctness). \<^verbatim>\<open>BundleEq\<close> holds exactly when the eight context fields
  are pairwise equal, whatever timestampNs and length are; it is reflexive, symmetric and
  transitive. For any batch, every record has exactly one group whose key equals it, the
  samples of a group are the records equal to its key, and two records of the batch have
  the same group exactly when their eight fields are equal. \<^verbatim>\<open>BundleHash\<close> does not depend
  on timestampNs and length either, and keys that are equal have equal hashes.
\<close>

theorem partition_correctness:
  "(BundleEq a b \<longleftrightarrow>
      ifindex a = ifindex b \<and> uid a = uid b \<and> tag a = tag b \<and> sport a = sport b \<and>
      dport a = dport b \<and> egress a = egress b \<and> ipProto a = ipProto b \<and>
      tcpFlags a = tcpFlags b) \<and>
   BundleEq (a\<lparr>timestampNs := t, length_pkt := l\<rparr>) b = BundleEq a b \<and>
   BundleEq a (b\<lparr>timestampNs := t, length_pkt := l\<rparr>) = BundleEq a b \<and>
   BundleEq a a \<and>
   (BundleEq a b \<longrightarrow> BundleEq b a) \<and>
   (BundleEq a b \<and> BundleEq b c \<longrightarrow> BundleEq a c) \<and>
   (\<forall>p\<in>set packets. \<exists>!kv. kv \<in> set (accumulate packets) \<and> BundleEq (fst kv) p) \<and>
   (\<forall>kv\<in>set (accumulate packets).
      time_and_len (snd kv) =
        map (\<lambda>p. (timestampNs p, length_pkt p)) (filter (BundleEq (fst kv)) packets)) \<and>
   (\<forall>p\<in>set packets. \<forall>q\<in>set packets.
      (\<exists>kv\<in>set (accumulate packets). BundleEq (fst kv) p \<and> BundleEq (fst kv) q) \<longleftrightarrow>
      (ifindex p = ifindex q \<and> uid p = uid q \<and> tag p = tag q \<and> sport p = sport q \<and>
       dport p = dport q \<and> egress p = egress q \<and> ipProto p = ipProto q \<and>
       tcpFlags p = tcpFlags q)) \<and>
   BundleHash H (a\<lparr>timestampNs := t, length_pkt := l\<rparr>) = BundleHash H a \<and>
   (BundleEq a b \<longrightarrow> BundleHash H a = BundleHash H b)"
proof (intro conjI)
  show "BundleEq a b \<longleftrightarrow>
      ifindex a = ifindex b \<and> uid a = uid b \<and> tag a = tag b \<and> sport a = sport b \<and>
      dport a = dport b \<and> egress a = egress b \<and> ipProto a = ipProto b \<and>
      tcpFlags a = tcpFlags b"
    by (rule BundleEq_fields)
  show "BundleEq (a\<lparr>timestampNs := t, length_pkt := l\<rparr>) b = BundleEq a b"
    by (simp add: BundleEq_fields)
  show "BundleEq a (b\<lparr>timestampNs := t, length_pkt := l\<rparr>) = BundleEq a b"
    by (simp add: BundleEq_fields)
  show "BundleEq a a"
    by (simp add: BundleEq_def)
  show "BundleEq a b \<longrightarrow> BundleEq b a"
    by (simp add: BundleEq_def)
  show "BundleEq a b \<and> BundleEq b c \<longrightarrow> BundleEq a c"
    by (simp add: BundleEq_def)
  show "\<forall>p\<in>set packets. \<exists>!kv. kv \<in> set (accumulate packets) \<and> BundleEq (fst kv) p"
  proof
    fix p assume "p \<in> set packets"
    from group_exists [OF this]
    obtain kv where "kv \<in> set (accumulate packets)" "BundleEq (fst kv) p"
      by blast
    then show "\<exists>!kv. kv \<in> set (accumulate packets) \<and> BundleEq (fst kv) p"
      by (blast intro: group_unique)
  qed
  show "\<forall>kv\<in>set (accumulate packets).
      time_and_len (snd kv) =
        map (\<lambda>p. (timestampNs p, length_pkt p)) (filter (BundleEq (fst kv)) packets)"
  proof
    fix kv assume "kv \<in> set (accumulate packets)"
    then have "(fst kv, snd kv) \<in> set (accumulate packets)" by simp
    from accumulate_group(1) [OF this] show "time_and_len (snd kv) =
        map (\<lambda>p. (timestampNs p, length_pkt p)) (filter (BundleEq (fst kv)) packets)"
      by (simp add: time_and_len_details_of)
  qed
  show "\<forall>p\<in>set packets. \<forall>q\<in>set packets.
      (\<exists>kv\<in>set (accumulate packets). BundleEq (fst kv) p \<and> BundleEq (fst kv) q) \<longleftrightarrow>
      (ifindex p = ifindex q \<and> uid p = uid q \<and> tag p = tag q \<and> sport p = sport q \<and>
       dport p = dport q \<and> egress p = egress q \<and> ipProto p = ipProto q \<and>
       tcpFlags p = tcpFlags q)"
  proof (intro ballI)
    fix p q assume p: "p \<in> set packets" and q: "q \<in> set packets"
    have "(\<exists>kv\<in>set (accumulate packets). BundleEq (fst kv) p \<and> BundleEq (fst kv) q) \<longleftrightarrow>
          BundleEq p q"
    proof
      assume "\<exists>kv\<in>set (accumulate packets). BundleEq (fst kv) p \<and> BundleEq (fst kv) q"
      then show "BundleEq p q"
        by (auto simp: BundleEq_def)
    next
      assume pq: "BundleEq p q"
      from group_exists [OF p]
      obtain kv where "kv \<in> set (accumulate packets)" "BundleEq (fst kv) p"
        by blast
      with pq show "\<exists>kv\<in>set (accumulate packets). BundleEq (fst kv) p \<and> BundleEq (fst kv) q"
        by (auto simp: BundleEq_def)
    qed
    then show "(\<exists>kv\<in>set (accumulate packets). BundleEq (fst kv) p \<and> BundleEq (fst kv) q) \<longleftrightarrow>
      (ifindex p = ifindex q \<and> uid p = uid q \<and> tag p = tag q \<and> sport p = sport q \<and>
       dport p = dport q \<and> egress p = egress q \<and> ipProto p = ipProto q \<and>
       tcpFlags p = tcpFlags q)"
      by (simp only: BundleEq_fields)
  qed
  show "BundleHash H (a\<lparr>timestampNs := t, length_pkt := l\<rparr>) = BundleHash H a"
    by (simp add: BundleHash_def)
  show "BundleEq a b \<longrightarrow> BundleHash H a = BundleHash H b"
    by (simp add: BundleHash_cong)
qed

theorem partition_correctness_witness:
  "BundleEq (ex_pkt 1 72) (ex_pkt 5 456) \<and>
   BundleHash ex_hash (ex_pkt 1 72) = BundleHash ex_hash (ex_pkt 5 456) \<and>
   (\<exists>!kv. kv \<in> set (accumulate ex_batch) \<and> BundleEq (fst kv) (ex_pkt 5 456))"
proof -
  note pc = partition_correctness [where a = "ex_pkt 1 72" and b = "ex_pkt 5 456"
      and c = "ex_pkt 2 100" and t = 0 and l = 0 and packets = ex_batch and H = ex_hash]
  have eq: "BundleEq (ex_pkt 1 72) (ex_pkt 5 456)"
    by (simp add: BundleEq_def AGG_FIELDS_def ex_pkt_def)
  have mem: "ex_pkt 5 456 \<in> set ex_batch"
    by (simp add: ex_batch_def)
  from pc eq have "BundleHash ex_hash (ex_pkt 1 72) = BundleHash ex_hash (ex_pkt 5 456)"
    by blast
  moreover from pc mem
  have "\<exists>!kv. kv \<in> set (accumulate ex_batch) \<and> BundleEq (fst kv) (ex_pkt 5 456)"
    by blast
  ultimately show ?thesis
    using eq by blast
qed

text \<open>
  C6 (port swap law). In the event that \<^verbatim>\<open>Fill\<close> writes, the local port of an egress
  record is its source port and the remote port its destination port; for an ingress
  record it is the other way round; both are in host byte order.
\<close>

theorem port_swap_law:
  "(egress src \<longrightarrow>
      local_port (Fill r src event) = Some (ucast (ntohs (sport src))) \<and>
      remote_port (Fill r src event) = Some (ucast (ntohs (dport src)))) \<and>
   (\<not> egress src \<longrightarrow>
      local_port (Fill r src event) = Some (ucast (ntohs (dport src))) \<and>
      remote_port (Fill r src event) = Some (ucast (ntohs (sport src))))"
  by (simp add: Fill_def)

theorem port_swap_law_witness:
  "local_port (Fill ex_resolver (ex_pkt 1 72) NetworkPacketEvent_empty) = Some 443 \<and>
   remote_port (Fill ex_resolver (ex_pkt 1 72) NetworkPacketEvent_empty) = Some 80 \<and>
   local_port (Fill ex_resolver ex_other NetworkPacketEvent_empty) = Some 1234 \<and>
   remote_port (Fill ex_resolver ex_other NetworkPacketEvent_empty) = Some 53"
  using port_swap_law [of "ex_pkt 1 72" ex_resolver NetworkPacketEvent_empty]
    port_swap_law [of ex_other ex_resolver NetworkPacketEvent_empty]
  by (simp add: ex_pkt_def ex_other_def ntohs_def)

text \<open>
  C7 (wraparound accumulation). For every group of the accumulation, the samples are the
  records of the batch equal to the group's key, \<^verbatim>\<open>bytes\<close> is the 32-bit sum of their
  lengths, and as a number it is the sum of the lengths modulo \<open>2 ^ 32\<close>.
\<close>

theorem wraparound_accumulation:
  assumes "(key, details) \<in> set (accumulate packets)"
  shows "time_and_len details =
           map (\<lambda>p. (timestampNs p, length_pkt p)) (filter (BundleEq key) packets) \<and>
         bytes details = sum_list (map snd (time_and_len details)) \<and>
         unat (bytes details) =
           sum_list (map (\<lambda>tl. unat (snd tl)) (time_and_len details)) mod 2 ^ 32"
proof -
  from accumulate_group(1) [OF assms]
  have d: "details = details_of (filter (BundleEq key) packets)" .
  have tl: "time_and_len details =
      map (\<lambda>p. (timestampNs p, length_pkt p)) (filter (BundleEq key) packets)"
    by (simp add: d time_and_len_details_of)
  have b: "bytes details = sum_list (map snd (time_and_len details))"
    by (simp add: tl o_def) (simp add: d bytes_details_of)
  have "unat (bytes details) = sum_list (map unat (map snd (time_and_len details))) mod 2 ^ 32"
    by (simp only: b unat_sum_list_u32)
  then show ?thesis
    using tl b by (simp add: o_def)
qed

theorem wraparound_accumulation_witness:
  "(ex_pkt 1 0xFFFFFFF0, details_of ex_wrap) \<in> set (accumulate ex_wrap) \<and>
   bytes (details_of ex_wrap) = 0x10 \<and>
   unat (bytes (details_of ex_wrap)) = (4294967280 + 32) mod 2 ^ 32"
proof -
  have acc: "accumulate ex_wrap = [(ex_pkt 1 0xFFFFFFF0, details_of ex_wrap)]"
    by (simp add: accumulate_def ex_wrap_def ex_pkt_def BundleEq_def AGG_FIELDS_def
        details_of_def)
  then have gr: "(ex_pkt 1 0xFFFFFFF0, details_of ex_wrap) \<in> set (accumulate ex_wrap)"
    by simp
  have tl: "time_and_len (details_of ex_wrap) = [(1, 0xFFFFFFF0), (2, 0x20)]"
    by (simp add: details_of_def ex_wrap_def add_packet_def BundleDetails_init_def ex_pkt_def)
  from wraparound_accumulation [OF gr] gr show ?thesis
    by (simp add: tl)
qed

text \<open>
  C8 (resolution-failure sentinel). When the interface index of a record has no name,
  \<^verbatim>\<open>Fill\<close> writes the interface \<open>''error''\<close>. The message is still emitted: in both modes,
  for every record of the batch whose index cannot be resolved, \<^verbatim>\<open>Write\<close> emits a message
  whose context has the interface \<open>''error''\<close> and whose data holds the record's timestamp
  and length. What the messages hold of timestamps and lengths does not depend on the
  resolver at all.
\<close>

theorem resolution_failure_sentinel:
  "(r (ifindex src) = None \<longrightarrow> interface (Fill r src event) = Some ''error'') \<and>
   (\<forall>p\<in>set packets. r (ifindex p) = None \<longrightarrow>
      (\<exists>m\<in>set (Write h r packets). \<exists>event'.
         event_of m = Some event' \<and> interface event' = Some ''error'' \<and>
         (timestampNs p, length_pkt p) \<in> set (recover m))) \<and>
   map recover (Write h r packets) = map recover (Write h r' packets)"
proof (intro conjI ballI impI)
  assume "r (ifindex src) = None"
  then show "interface (Fill r src event) = Some ''error''"
    by (simp add: interface_Fill)
next
  fix p assume p: "p \<in> set packets" and none: "r (ifindex p) = None"
  show "\<exists>m\<in>set (Write h r packets). \<exists>event'.
         event_of m = Some event' \<and> interface event' = Some ''error'' \<and>
         (timestampNs p, length_pkt p) \<in> set (recover m)"
  proof (cases "mInternLimit h = 0 \<and> mAggregationThreshold h = 0")
    case True
    from p have "write_packet r p \<in> set (Write h r packets)"
      by (simp add: write_direct [OF True])
    moreover have "interface (Fill r p (NetworkPacketEvent_empty\<lparr>length_ev := Some (length_pkt p)\<rparr>))
        = Some ''error''"
      by (simp add: interface_Fill none)
    ultimately show ?thesis
      by (metis event_of_write_packet recover_write_packet list.set_intros(1))
  next
    case False
    then have on: "mInternLimit h \<noteq> 0 \<or> mAggregationThreshold h \<noteq> 0"
      by simp
    from group_exists [OF p]
    obtain kv where kv: "kv \<in> set (accumulate packets)" and eq: "BundleEq (fst kv) p"
      by blast
    from kv have "(fst kv, snd kv) \<in> set (accumulate packets)"
      by simp
    from accumulate_group(1) [OF this]
    have "time_and_len (snd kv) =
        map (\<lambda>p. (timestampNs p, length_pkt p)) (filter (BundleEq (fst kv)) packets)"
      by (simp add: time_and_len_details_of)
    with p eq have "(timestampNs p, length_pkt p) \<in> set (recover (write_bundle r kv))"
      by (auto simp: recover_write_bundle)
    moreover from kv have "write_bundle r kv \<in> set (Write h r packets)"
      by (simp add: write_bundled [OF on])
    moreover from eq none
    have "interface (Fill r (fst kv) NetworkPacketEvent_empty) = Some ''error''"
      by (simp add: interface_Fill BundleEq_fields)
    ultimately show ?thesis
      by (metis event_of_write_bundle)
  qed
next
  show "map recover (Write h r packets) = map recover (Write h r' packets)"
    by (simp add: Write_def recover_write_packet recover_write_bundle)
qed

theorem resolution_failure_sentinel_witness:
  "interface (Fill ex_resolver ex_other NetworkPacketEvent_empty) = Some ''error'' \<and>
   (\<exists>m\<in>set (Write (ex_handler 0 0) ex_resolver ex_batch). \<exists>event'.
      event_of m = Some event' \<and> interface event' = Some ''error'' \<and>
      (3, 40) \<in> set (recover m)) \<and>
   (\<exists>m\<in>set (Write (ex_handler 0 10) ex_resolver ex_batch). \<exists>event'.
      event_of m = Some event' \<and> interface event' = Some ''error'' \<and>
      (3, 40) \<in> set (recover m))"
proof -
  have none: "ex_resolver (ifindex ex_other) = None"
    by (simp add: ex_resolver_def ex_other_def)
  have mem: "ex_other \<in> set ex_batch"
    by (simp add: ex_batch_def)
  have tl: "timestampNs ex_other = 3" "length_pkt ex_other = 40"
    by (simp_all add: ex_other_def)
  note rf = resolution_failure_sentinel [where r = ex_resolver and src = ex_other
      and event = NetworkPacketEvent_empty and packets = ex_batch and r' = ex_resolver]
  from rf [where h = "ex_handler 0 0"] none
  have "interface (Fill ex_resolver ex_other NetworkPacketEvent_empty) = Some ''error''"
    by blast
  moreover from rf [where h = "ex_handler 0 0"] none mem
  have "\<exists>m\<in>set (Write (ex_handler 0 0) ex_resolver ex_batch). \<exists>event'.
      event_of m = Some event' \<and> interface event' = Some ''error'' \<and>
      (timestampNs ex_other, length_pkt ex_other) \<in> set (recover m)"
    by blast
  moreover from rf [where h = "ex_handler 0 10"] none mem
  have "\<exists>m\<in>set (Write (ex_handler 0 10) ex_resolver ex_batch). \<exists>event'.
      event_of m = Some event' \<and> interface event' = Some ''error'' \<and>
      (timestampNs ex_other, length_pkt ex_other) \<in> set (recover m)"
    by blast
  ultimately show ?thesis
    by (simp only: tl)
qed

text \<open>
  C9 (clamp law). For every configured poll interval, the unset one included (the decoder
  answers 0 then), the poll interval after \<^verbatim>\<open>OnSetup\<close> is the larger of the configured
  value and 100.
\<close>

theorem clamp_law:
  "mPollMs (OnSetup config h) = max (get_uint32 (poll_ms config)) 100"
  by (auto simp: OnSetup_def Let_def max_def)

theorem clamp_law_witness:
  "mPollMs (OnSetup \<lparr>poll_ms = None, intern_limit = None, aggregation_threshold = None,
      drop_local_port = None, drop_remote_port = None, drop_tcp_flags = None\<rparr> (ex_handler 0 0)) = 100
   \<and> mPollMs (OnSetup \<lparr>poll_ms = Some 250, intern_limit = None, aggregation_threshold = None,
      drop_local_port = None, drop_remote_port = None, drop_tcp_flags = None\<rparr> (ex_handler 0 0)) = 250"
  using clamp_law [of "\<lparr>poll_ms = None, intern_limit = None, aggregation_threshold = None,
      drop_local_port = None, drop_remote_port = None, drop_tcp_flags = None\<rparr>" "ex_handler 0 0"]
    clamp_law [of "\<lparr>poll_ms = Some 250, intern_limit = None, aggregation_threshold = None,
      drop_local_port = None, drop_remote_port = None, drop_tcp_flags = None\<rparr>" "ex_handler 0 0"]
  by (simp add: get_uint32_def)




end
